theory Spec2Isabelle
  imports Main "HOL-Library.Word"
begin

unbundle bit_operations_syntax

section \<open>Data model of SFE_CC3000.cpp\<close>

text \<open>
  The driver only supports the 8-bit AVR targets (on every other target \<open>init\<close> fails
  and all operations are refused), so \<open>unsigned char\<close> is 8 bits, \<open>unsigned int\<close> is
  16 bits and \<open>unsigned long\<close> is 32 bits.
\<close>

type_synonym u8 = "8 word"
type_synonym u16 = "16 word"
type_synonym u32 = "32 word"

text \<open>
  Constants that SFE_CC3000.cpp takes from headers that are not part of the sources
  (common.h, utility/wlan.h). They are parameters of the model, so every theorem below
  holds for any values of them.
\<close>

record vendor =
  CC3000_SUCCESS :: int
  WLAN_SEC_UNSEC :: u16
  WLAN_SEC_WEP :: u16
  WLAN_SEC_WPA :: u16
  WLAN_SEC_WPA2 :: u16
  SCAN_NUM_CHANNELS :: nat
  SCAN_CHANNEL_TIMEOUT :: u32
  BSSID_LENGTH :: nat

text \<open>
  Modelled from the spec: the struct \<open>ScanResult\<close> is declared in common.h, which is
  not part of the sources. The spec lists its content as the total network count and
  an access point record (ssid, bssid, rssi, securityMode, validityFlag); the field
  names are the ones SFE_CC3000.cpp uses (\<open>scan_ssid\<close> and \<open>scan_bssid\<close> for its
  \<open>ssid\<close> and \<open>bssid\<close>). Counts and lengths are natural numbers.
\<close>

record ScanResult =
  num_networks :: nat
  is_valid :: bool
  rssi :: nat
  security_mode :: nat
  ssid_length :: nat
  scan_ssid :: "u8 list"
  scan_bssid :: "u8 list"

text \<open>The caller's output struct of \<open>getNextAccessPoint\<close> (declared in SFE_CC3000.h).\<close>

record AccessPointInfo =
  ap_rssi :: nat
  ap_security_mode :: nat
  ap_ssid :: "u8 list"
  ap_bssid :: "u8 list"

text \<open>The vendor's network configuration struct and the caller's \<open>ConnectionInfo\<close>.\<close>

record tNetappIpconfigRetArgs =
  aucIP :: "u8 list"
  aucSubnetMask :: "u8 list"
  aucDefaultGateway :: "u8 list"
  aucDHCPServer :: "u8 list"
  aucDNSServer :: "u8 list"
  uaMacAddr :: "u8 list"
  uaSSID :: "u8 list"

record ConnectionInfo =
  ip_address :: "u8 list"
  subnet_mask :: "u8 list"
  default_gateway :: "u8 list"
  dhcp_server :: "u8 list"
  dns_server :: "u8 list"
  mac_address :: "u8 list"
  ci_ssid :: "u8 list"

record IPAddr =
  address :: "u8 list"

text \<open>
  What the driver asks of the hardware and of the vendor library, in the order of the
  calls. The scan parameters other than the scan time and the channel timeouts are
  compile-time constants and are left out of the record of a call.
\<close>

datatype action =
  PinMode u8 bool
| DigitalWrite u8 bool
| SpiBegin
| SpiSetDataMode
| SpiSetBitOrder
| SpiSetClockDivider
| WlanInit
| WlanStart nat
| SetScanParams u32 "u32 list"
| GetScanResults nat
| SetConnectionPolicy nat nat nat
| WlanConnect u16 string nat "string option" nat
| NetappIpconfig
| GetHostByName string nat

text \<open>
  The object's members, the global variables of the file, the millisecond clock behind
  \<open>millis()\<close> and \<open>delay()\<close>, and the calls made so far. A member \<open>name_\<close> of the
  class is the field \<open>name\<close> here (an identifier cannot end in an underscore).
  The two counters are declared
  in SFE_CC3000.h (not part of the sources); the spec calls them integers, and the only
  arithmetic on them is an increment guarded by \<open>access_point_count < num_access_points\<close>.
\<close>

record state =
  is_initialized :: bool
  num_access_points :: nat
  access_point_count :: nat
  ap_scan_result :: ScanResult
  connection_info :: tNetappIpconfigRetArgs
  g_int_pin :: u8
  g_int_num :: u8
  g_en_pin :: u8
  g_cs_pin :: u8
  ulSmartConfigFinished :: u32
  ucStopSmartConfig :: u32
  ulCC3000Connected :: u32
  ulCC3000DHCP :: u32
  ulCC3000DHCP_configured :: u32
  OkToDoShutDown :: u32
  clock_ms :: nat
  cmds :: "action list"

section \<open>Primitives\<close>

definition issue :: "action \<Rightarrow> state \<Rightarrow> state" where
  "issue a s = s\<lparr>cmds := cmds s @ [a]\<rparr>"

definition delay :: "nat \<Rightarrow> state \<Rightarrow> state" where
  "delay n s = s\<lparr>clock_ms := clock_ms s + n\<rparr>"

text \<open>\<open>millis()\<close> is an \<open>unsigned long\<close>: the clock modulo \<open>2 ^ 32\<close>.\<close>

definition millis :: "state \<Rightarrow> u32" where
  "millis s = of_nat (clock_ms s)"

text \<open>
  A write into a C array. Writing past the end is undefined behaviour in C; the model
  gives \<open>None\<close> there, and \<open>None\<close> propagates to the result of the operation.
\<close>

definition store :: "'a list \<Rightarrow> nat \<Rightarrow> 'a \<Rightarrow> 'a list option" where
  "store xs i v = (if i < length xs then Some (xs[i := v]) else None)"

definition memcpy :: "'a list \<Rightarrow> 'a list \<Rightarrow> nat \<Rightarrow> 'a list option" where
  "memcpy dst src n =
     (if n \<le> length dst \<and> n \<le> length src then Some (take n src @ drop n dst) else None)"

text \<open>
  \<open>strncpy(dst, src, n)\<close> writes exactly \<open>n\<close> bytes: the bytes of \<open>src\<close> up to its
  first NUL (at most \<open>n\<close> of them), then NUL padding. It is undefined when \<open>dst\<close> holds
  fewer than \<open>n\<close> bytes, or when \<open>src\<close> ends before \<open>n\<close> bytes without a NUL.
\<close>

definition strncpy :: "u8 list \<Rightarrow> u8 list \<Rightarrow> nat \<Rightarrow> u8 list option" where
  "strncpy dst src n =
     (let str = takeWhile (\<lambda>c. c \<noteq> 0) (take n src) in
      if length dst < n then None
      else if length str = length src \<and> length src < n then None
      else Some (str @ replicate (n - length str) 0 @ drop n dst))"

section \<open>Construction and initialisation\<close>

text \<open>
  The constructor assigns some members and globals and leaves the others
  (\<open>ap_scan_result\<close>, \<open>connection_info\<close>, \<open>g_int_num\<close>) as they are in memory:
  \<open>raw\<close> is the memory before construction.
\<close>

definition SFE_CC3000 :: "state \<Rightarrow> u8 \<Rightarrow> u8 \<Rightarrow> u8 \<Rightarrow> state" where
  "SFE_CC3000 raw int_pin en_pin cs_pin =
     raw\<lparr>is_initialized := False,
         num_access_points := 0,
         access_point_count := 0,
         ulSmartConfigFinished := 0,
         ucStopSmartConfig := 0,
         ulCC3000Connected := 0,
         ulCC3000DHCP := 0,
         ulCC3000DHCP_configured := 0,
         OkToDoShutDown := 0,
         g_int_pin := int_pin,
         g_en_pin := en_pin,
         g_cs_pin := cs_pin\<rparr>"

text \<open>
  The part of \<open>init\<close> after the interrupt pin has been accepted: pins, SPI bus, the
  vendor library's callbacks, a 100 ms pause and the chip's start sequence.
  \<open>PinMode p True\<close> is \<open>OUTPUT\<close>, \<open>DigitalWrite p False\<close> is \<open>LOW\<close>.
\<close>

definition init_hardware :: "state \<Rightarrow> bool \<times> state" where
  "init_hardware s =
     (let s1 = issue (PinMode (g_int_pin s) False) s;
          s2 = issue (PinMode (g_en_pin s1) True) s1;
          s3 = issue (PinMode (g_cs_pin s2) True) s2;
          s4 = issue (DigitalWrite (g_en_pin s3) False) s3;
          s5 = issue (DigitalWrite (g_cs_pin s4) False) s4;
          s6 = issue SpiSetClockDivider (issue SpiSetBitOrder (issue SpiSetDataMode (issue SpiBegin s5)));
          s7 = issue WlanInit s6;
          s8 = delay 100 s7;
          s9 = issue (WlanStart 0) s8
      in (True, s9\<lparr>is_initialized := True\<rparr>))"

text \<open>
  \<open>avr\<close> says whether the code is compiled for one of the supported AVR targets
  (the \<open>#if defined(__AVR_ATmega8__) ...\<close> branch); otherwise \<open>init\<close> fails.
\<close>

definition init :: "bool \<Rightarrow> state \<Rightarrow> bool \<times> state" where
  "init avr s =
     (if is_initialized s then (True, s)
      else if \<not> avr then (False, s)
      else if g_int_pin s = 2 then init_hardware (s\<lparr>g_int_num := 0\<rparr>)
      else if g_int_pin s = 3 then init_hardware (s\<lparr>g_int_num := 1\<rparr>)
      else (False, s))"

section \<open>Scanning for access points\<close>

text \<open>
  The answer of the vendor library to \<open>wlan_ioctl_get_scan_results\<close>: the value it
  returns and the content of the result buffer after the call (a call that leaves the
  buffer alone answers with the content the buffer had).
\<close>

record scan_reply =
  sr_status :: int
  sr_data :: ScanResult

definition wlan_ioctl_get_scan_results :: "scan_reply \<Rightarrow> state \<Rightarrow> state" where
  "wlan_ioctl_get_scan_results r s = (issue (GetScanResults 0) s)\<lparr>ap_scan_result := sr_data r\<rparr>"

text \<open>
  The loop that prepares the channel interval list:
  \<^verbatim>\<open>for (i = 0; i < SCAN_NUM_CHANNELS; i++) { channel_timeouts[0] = SCAN_CHANNEL_TIMEOUT; }\<close>
  Every round writes entry 0, which lies inside the array whenever the body runs.
\<close>

function channel_timeouts_loop :: "vendor \<Rightarrow> nat \<Rightarrow> u32 list \<Rightarrow> u32 list" where
  "channel_timeouts_loop v i channel_timeouts =
     (if i < SCAN_NUM_CHANNELS v
      then channel_timeouts_loop v (i + 1) (channel_timeouts[0 := SCAN_CHANNEL_TIMEOUT v])
      else channel_timeouts)"
  by pat_completeness auto
termination
  by (relation "measure (\<lambda>(v, i, c). SCAN_NUM_CHANNELS v - i)") auto

declare channel_timeouts_loop.simps [simp del]

text \<open>
  \<open>channel_timeouts\<close> is a local array of \<open>SCAN_NUM_CHANNELS\<close> entries that is not
  initialised: \<open>uninit k\<close> is what entry \<open>k\<close> holds when the function is entered.
  \<open>r_start\<close>, \<open>r_fetch\<close> and \<open>r_stop\<close> are the vendor library's answers to the three
  calls. \<open>scan_time + 500\<close> is computed in \<open>unsigned int\<close>.
\<close>

definition scanAccessPoints ::
  "vendor \<Rightarrow> state \<Rightarrow> u16 \<Rightarrow> (nat \<Rightarrow> u32) \<Rightarrow> int \<Rightarrow> scan_reply \<Rightarrow> int \<Rightarrow> bool \<times> state" where
  "scanAccessPoints v s scan_time uninit r_start r_fetch r_stop =
     (if \<not> is_initialized s then (False, s)
      else
        let channel_timeouts = channel_timeouts_loop v 0 (map uninit [0 ..< SCAN_NUM_CHANNELS v]);
            s1 = issue (SetScanParams (ucast scan_time) channel_timeouts) s
        in if r_start \<noteq> CC3000_SUCCESS v then (False, s1)
           else
             let s2 = delay (unat (scan_time + 500)) s1;
                 s3 = s2\<lparr>num_access_points := 0, access_point_count := 0\<rparr>;
                 s4 = wlan_ioctl_get_scan_results r_fetch s3
             in if sr_status r_fetch \<noteq> CC3000_SUCCESS v then (False, s4)
                else
                  let s5 = s4\<lparr>num_access_points := num_networks (ap_scan_result s4)\<rparr>;
                      s6 = issue (SetScanParams 0 channel_timeouts) s5
                  in if r_stop \<noteq> CC3000_SUCCESS v then (False, s6) else (True, s6))"

text \<open>
  The four assignments to the caller's struct:
  \<^verbatim>\<open>ap_info.rssi = ...; ap_info.security_mode = ...;
  strncpy(ap_info.ssid, ssid, ssid_length); ap_info.ssid[ssid_length] = '\0';
  memcpy(ap_info.bssid, bssid, BSSID_LENGTH);\<close>
\<close>

definition fill_ap_info :: "vendor \<Rightarrow> ScanResult \<Rightarrow> AccessPointInfo \<Rightarrow> AccessPointInfo option" where
  "fill_ap_info v r ap_info =
     (case strncpy (ap_ssid ap_info) (scan_ssid r) (ssid_length r) of
        None \<Rightarrow> None
      | Some copied \<Rightarrow>
          (case store copied (ssid_length r) 0 of
             None \<Rightarrow> None
           | Some terminated \<Rightarrow>
               (case memcpy (ap_bssid ap_info) (scan_bssid r) (BSSID_LENGTH v) of
                  None \<Rightarrow> None
                | Some b \<Rightarrow>
                    Some (ap_info\<lparr>ap_rssi := rssi r, ap_security_mode := security_mode r,
                                 ap_ssid := terminated, ap_bssid := b\<rparr>))))"

text \<open>
  \<open>fetch\<close> is the vendor library's answer to the read-ahead call, if the call is made.
  The result is the returned value, the state and the caller's struct; \<open>None\<close> stands
  for a copy that leaves its array.
\<close>

definition getNextAccessPoint ::
  "vendor \<Rightarrow> state \<Rightarrow> AccessPointInfo \<Rightarrow> scan_reply \<Rightarrow> (bool \<times> state \<times> AccessPointInfo) option" where
  "getNextAccessPoint v s ap_info fetch =
     (if \<not> is_initialized s then Some (False, s, ap_info)
      else if \<not> is_valid (ap_scan_result s) then Some (False, s, ap_info)
      else if access_point_count s \<ge> num_access_points s then Some (False, s, ap_info)
      else
        (case fill_ap_info v (ap_scan_result s) ap_info of
           None \<Rightarrow> None
         | Some ap_info' \<Rightarrow>
             let s1 = wlan_ioctl_get_scan_results fetch s
             in if sr_status fetch \<noteq> CC3000_SUCCESS v then Some (False, s1, ap_info')
                else Some (True, s1\<lparr>access_point_count := access_point_count s1 + 1\<rparr>, ap_info')))"

section \<open>Connecting\<close>

definition getDHCPStatus :: "state \<Rightarrow> bool" where
  "getDHCPStatus s = (if ulCC3000DHCP s = 1 then True else False)"

definition getConnectionStatus :: "state \<Rightarrow> bool" where
  "getConnectionStatus s = (if ulCC3000Connected s = 1 then True else False)"

text \<open>
  The status flags are \<open>volatile\<close> globals written by the interrupt-driven callback of
  the vendor library, which is not part of this file. In \<open>connect\<close> the model samples
  them after every call into the vendor library and once per round of the DHCP wait.
  A \<open>tick\<close> is what such a step meets: the value the vendor call returns (the DHCP
  wait makes no call and \<open>netapp_ipconfig\<close> returns nothing, they ignore it), the
  milliseconds that pass, and the values the callback has left in the two flags.
\<close>

record tick =
  t_status :: int
  t_elapsed :: nat
  t_connected :: u32
  t_dhcp :: u32

definition elapse :: "tick \<Rightarrow> state \<Rightarrow> state" where
  "elapse t s = s\<lparr>clock_ms := clock_ms s + t_elapsed t,
                  ulCC3000Connected := t_connected t,
                  ulCC3000DHCP := t_dhcp t\<rparr>"

text \<open>
  \<^verbatim>\<open>if (timeout != 0) { if ((millis() - time) > timeout) return false; }\<close>
  The subtraction is in \<open>unsigned long\<close>; \<open>timeout\<close> is an \<open>unsigned int\<close>.
\<close>

definition timed_out :: "u16 \<Rightarrow> u32 \<Rightarrow> state \<Rightarrow> bool" where
  "timed_out timeout time s = (timeout \<noteq> 0 \<and> millis s - time > ucast timeout)"

definition wlan_connect :: "vendor \<Rightarrow> string \<Rightarrow> u16 \<Rightarrow> string \<Rightarrow> action" where
  "wlan_connect v ssid security password =
     (if security = WLAN_SEC_UNSEC v
      then WlanConnect (WLAN_SEC_UNSEC v) ssid (length ssid) None 0
      else WlanConnect security ssid (length ssid) (Some password) (length password))"

datatype loop_exit = Proceed | GiveUp

text \<open>
  The first loop, \<open>while (getConnectionStatus() == false)\<close>: wait 10 ms, send the
  connect command, leave the loop with \<open>break\<close> when the command is accepted, return
  false when the time is over. \<open>Proceed\<close> is leaving the loop (by its condition or by
  \<open>break\<close>), \<open>GiveUp\<close> is the \<open>return false\<close>. The result also holds the ticks that are
  left. \<open>None\<close>: the loop is still running when the ticks are used up.
\<close>

fun connect_attempts ::
  "vendor \<Rightarrow> string \<Rightarrow> u16 \<Rightarrow> string \<Rightarrow> u16 \<Rightarrow> u32 \<Rightarrow> state \<Rightarrow> tick list
   \<Rightarrow> (loop_exit \<times> state \<times> tick list) option" where
  "connect_attempts v ssid security password timeout time s [] =
     (if getConnectionStatus s then Some (Proceed, s, []) else None)"
| "connect_attempts v ssid security password timeout time s (t # ts) =
     (if getConnectionStatus s then Some (Proceed, s, t # ts)
      else
        let s1 = delay 10 s;
            s2 = elapse t (issue (wlan_connect v ssid security password) s1)
        in if t_status t = CC3000_SUCCESS v then Some (Proceed, s2, ts)
           else if timed_out timeout time s2 then Some (GiveUp, s2, ts)
           else connect_attempts v ssid security password timeout time s2 ts)"

text \<open>
  The second loop, \<open>while (getDHCPStatus() == false)\<close>, polls without a pause; a tick
  passes between two polls. True: the flag was read as set; False: \<open>return false\<close>.
\<close>

fun wait_dhcp :: "u16 \<Rightarrow> u32 \<Rightarrow> state \<Rightarrow> tick list \<Rightarrow> (bool \<times> state) option" where
  "wait_dhcp timeout time s [] =
     (if getDHCPStatus s then Some (True, s)
      else if timed_out timeout time s then Some (False, s)
      else None)"
| "wait_dhcp timeout time s (t # ts) =
     (if getDHCPStatus s then Some (True, s)
      else if timed_out timeout time s then Some (False, s)
      else wait_dhcp timeout time (elapse t s) ts)"

text \<open>
  The two other vendor calls of \<open>connect\<close>. Like \<open>wlan_connect\<close> they block, so each
  meets a tick: time passes and the callback can rewrite the flags meanwhile.
\<close>

definition wlan_ioctl_set_connection_policy :: "tick \<Rightarrow> state \<Rightarrow> state" where
  "wlan_ioctl_set_connection_policy t s = elapse t (issue (SetConnectionPolicy 0 0 0) s)"

definition netapp_ipconfig :: "tNetappIpconfigRetArgs \<Rightarrow> tick \<Rightarrow> state \<Rightarrow> state" where
  "netapp_ipconfig ipconfig t s =
     (elapse t (issue NetappIpconfig s))\<lparr>connection_info := ipconfig\<rparr>"

text \<open>
  \<open>connect\<close> up to the end of the DHCP wait, that is, up to the comment
  \<open>Get connection information\<close>. \<open>policy\<close> is what the call of
  \<open>wlan_ioctl_set_connection_policy\<close> meets, \<open>ticks\<close> what the rounds of the two loops
  meet. \<open>time = millis()\<close> is read in the state \<open>s1\<close> after the policy command. The
  state of a result is the state at the last poll of a flag. \<open>None\<close>: the loops are
  still running when the ticks are used up.
\<close>

definition connect_wait ::
  "vendor \<Rightarrow> state \<Rightarrow> string \<Rightarrow> u16 \<Rightarrow> string \<Rightarrow> u16 \<Rightarrow> tick \<Rightarrow> tick list
   \<Rightarrow> (bool \<times> state) option" where
  "connect_wait v s ssid security password timeout policy ticks =
     (if \<not> is_initialized s then Some (False, s)
      else if getDHCPStatus s then Some (False, s)
      else if \<not> (security = WLAN_SEC_UNSEC v \<or> security = WLAN_SEC_WEP v \<or>
                  security = WLAN_SEC_WPA v \<or> security = WLAN_SEC_WPA2 v) then Some (False, s)
      else
        let s1 = wlan_ioctl_set_connection_policy policy s
        in if t_status policy \<noteq> CC3000_SUCCESS v then Some (False, s1)
           else
             let time = millis s1
             in (case connect_attempts v ssid security password timeout time s1 ticks of
                   None \<Rightarrow> None
                 | Some (GiveUp, s2, rest) \<Rightarrow> Some (False, s2)
                 | Some (Proceed, s2, rest) \<Rightarrow> wait_dhcp timeout time s2 rest))"

text \<open>
  The whole of \<open>connect\<close>: after a DHCP wait that has read the flag as set,
  \<open>netapp_ipconfig\<close> is called and \<open>connect\<close> returns true. \<open>ipconfig\<close> is the data
  that call delivers and \<open>t_ipconfig\<close> what it meets: the time it takes and the values
  the callback leaves in the flags meanwhile.
\<close>

definition connect ::
  "vendor \<Rightarrow> state \<Rightarrow> string \<Rightarrow> u16 \<Rightarrow> string \<Rightarrow> u16 \<Rightarrow> tick \<Rightarrow> tNetappIpconfigRetArgs
   \<Rightarrow> tick \<Rightarrow> tick list \<Rightarrow> (bool \<times> state) option" where
  "connect v s ssid security password timeout policy ipconfig t_ipconfig ticks =
     (case connect_wait v s ssid security password timeout policy ticks of
        None \<Rightarrow> None
      | Some (False, s3) \<Rightarrow> Some (False, s3)
      | Some (True, s3) \<Rightarrow> Some (True, netapp_ipconfig ipconfig t_ipconfig s3))"

section \<open>Name resolution\<close>

text \<open>
  \<open>r_ret\<close> is what \<open>gethostbyname\<close> returns and \<open>ret_ip_addr\<close> what it leaves in the
  local variable of that name. The four bytes are written from index 3 down to 0.
\<close>

definition dnsLookup ::
  "state \<Rightarrow> string \<Rightarrow> IPAddr \<Rightarrow> int \<Rightarrow> u32 \<Rightarrow> (bool \<times> state \<times> IPAddr) option" where
  "dnsLookup s hostname ip_addr r_ret ret_ip_addr =
     (if \<not> is_initialized s then Some (False, s, ip_addr)
      else if \<not> getConnectionStatus s then Some (False, s, ip_addr)
      else if \<not> getDHCPStatus s then Some (False, s, ip_addr)
      else
        let s1 = issue (GetHostByName hostname (length hostname)) s
        in if r_ret = 0 then Some (False, s1, ip_addr)
           else
             (case store (address ip_addr) 3 (ucast (ret_ip_addr AND 0xFF)) of
                None \<Rightarrow> None
              | Some a3 \<Rightarrow>
             (case store a3 2 (ucast (drop_bit 8 ret_ip_addr AND 0xFF)) of
                None \<Rightarrow> None
              | Some a2 \<Rightarrow>
             (case store a2 1 (ucast (drop_bit 16 ret_ip_addr AND 0xFF)) of
                None \<Rightarrow> None
              | Some a1 \<Rightarrow>
             (case store a1 0 (ucast (drop_bit 24 ret_ip_addr AND 0xFF)) of
                None \<Rightarrow> None
              | Some a0 \<Rightarrow> Some (True, s1, ip_addr\<lparr>address := a0\<rparr>))))))"

section \<open>Connection information\<close>

text \<open>
  One of the six loops of \<open>getConnectionInfo\<close>:
  \<^verbatim>\<open>for (i = 0; i < max; i++) { dst[i] = src[max - 1 - i]; }\<close>
  The read is inside \<open>src\<close> as long as \<open>max\<close> (here \<open>max_i\<close>) is at most its size.
\<close>

function reverse_loop :: "nat \<Rightarrow> nat \<Rightarrow> u8 list \<Rightarrow> u8 list \<Rightarrow> u8 list option" where
  "reverse_loop i max_i src dst =
     (if i < max_i
      then (case store dst i (src ! (max_i - 1 - i)) of
              None \<Rightarrow> None
            | Some dst' \<Rightarrow> reverse_loop (i + 1) max_i src dst')
      else Some dst)"
  by pat_completeness auto
termination
  by (relation "measure (\<lambda>(i, max_i, src, dst). max_i - i)") auto

declare reverse_loop.simps [simp del]

text \<open>\<open>max = sizeof(src)\<close> is kept in a \<open>uint8_t\<close>.\<close>

definition reverse_field :: "u8 list \<Rightarrow> u8 list \<Rightarrow> u8 list option" where
  "reverse_field src dst = reverse_loop 0 (length src mod 256) src dst"

definition getConnectionInfo :: "state \<Rightarrow> ConnectionInfo \<Rightarrow> (bool \<times> ConnectionInfo) option" where
  "getConnectionInfo s info =
     (if \<not> is_initialized s then Some (False, info)
      else if \<not> getConnectionStatus s then Some (False, info)
      else if \<not> getDHCPStatus s then Some (False, info)
      else
        (case reverse_field (aucIP (connection_info s)) (ip_address info) of
           None \<Rightarrow> None
         | Some new_ip \<Rightarrow>
        (case reverse_field (aucSubnetMask (connection_info s)) (subnet_mask info) of
           None \<Rightarrow> None
         | Some new_mask \<Rightarrow>
        (case reverse_field (aucDefaultGateway (connection_info s)) (default_gateway info) of
           None \<Rightarrow> None
         | Some new_gw \<Rightarrow>
        (case reverse_field (aucDHCPServer (connection_info s)) (dhcp_server info) of
           None \<Rightarrow> None
         | Some new_dhcp \<Rightarrow>
        (case reverse_field (aucDNSServer (connection_info s)) (dns_server info) of
           None \<Rightarrow> None
         | Some new_dns \<Rightarrow>
        (case reverse_field (uaMacAddr (connection_info s)) (mac_address info) of
           None \<Rightarrow> None
         | Some new_mac \<Rightarrow>
        (case memcpy (ci_ssid info) (uaSSID (connection_info s)) 32 of
           None \<Rightarrow> None
         | Some new_ssid \<Rightarrow>
             Some (True, info\<lparr>ip_address := new_ip, subnet_mask := new_mask,
                              default_gateway := new_gw, dhcp_server := new_dhcp,
                              dns_server := new_dns, mac_address := new_mac,
                              ci_ssid := new_ssid\<rparr>)))))))))"

section \<open>Callers\<close>

text \<open>
  A caller that calls \<open>getNextAccessPoint\<close> once per answer of the vendor library,
  handing the same struct in every time, and collects the returned values.
\<close>

fun getNextAccessPoint_calls ::
  "vendor \<Rightarrow> state \<Rightarrow> AccessPointInfo \<Rightarrow> scan_reply list
   \<Rightarrow> (bool list \<times> state \<times> AccessPointInfo) option" where
  "getNextAccessPoint_calls v s ap_info [] = Some ([], s, ap_info)"
| "getNextAccessPoint_calls v s ap_info (f # fs) =
     (case getNextAccessPoint v s ap_info f of
        None \<Rightarrow> None
      | Some (b, s', ap_info') \<Rightarrow>
          (case getNextAccessPoint_calls v s' ap_info' fs of
             None \<Rightarrow> None
           | Some (bs, s'', ap_info'') \<Rightarrow> Some (b # bs, s'', ap_info'')))"

text \<open>
  A history of calls on the driver object, each with the answers of the vendor library
  it meets, and the state the history leads to.
\<close>

datatype call =
  Init bool
| Scan u16 "nat \<Rightarrow> u32" int scan_reply int
| Next AccessPointInfo scan_reply

fun run :: "vendor \<Rightarrow> state \<Rightarrow> call list \<Rightarrow> state option" where
  "run v s [] = Some s"
| "run v s (Init avr # cs) = run v (snd (init avr s)) cs"
| "run v s (Scan scan_time uninit r_start r_fetch r_stop # cs) =
     run v (snd (scanAccessPoints v s scan_time uninit r_start r_fetch r_stop)) cs"
| "run v s (Next ap_info fetch # cs) =
     (case getNextAccessPoint v s ap_info fetch of
        None \<Rightarrow> None
      | Some (b, s', ap_info') \<Rightarrow> run v s' cs)"

text \<open>
  A call of \<open>scanAccessPoints\<close> whose scan was started and whose first results were
  fetched with success, flagged valid and reporting at least one network. What the
  command that stops the scan answers plays no part.
\<close>

fun fetched_first :: "vendor \<Rightarrow> call \<Rightarrow> bool" where
  "fetched_first v (Scan scan_time uninit r_start r_fetch r_stop) =
     (r_start = CC3000_SUCCESS v \<and> sr_status r_fetch = CC3000_SUCCESS v \<and>
      0 < num_networks (sr_data r_fetch) \<and> is_valid (sr_data r_fetch))"
| "fetched_first v (Init avr) = False"
| "fetched_first v (Next ap_info fetch) = False"

text \<open>The states in which the last two guards of \<open>getNextAccessPoint\<close> cannot both pass.\<close>

definition no_record :: "state \<Rightarrow> bool" where
  "no_record s = (num_access_points s = 0 \<or> \<not> is_valid (ap_scan_result s))"

section \<open>Concrete values used by the examples\<close>

text \<open>The values of the vendor's constants in the CC3000 host driver.\<close>

definition vendor0 :: vendor where
  "vendor0 = \<lparr>CC3000_SUCCESS = 0, WLAN_SEC_UNSEC = 0, WLAN_SEC_WEP = 1, WLAN_SEC_WPA = 2,
     WLAN_SEC_WPA2 = 3, SCAN_NUM_CHANNELS = 16, SCAN_CHANNEL_TIMEOUT = 2000, BSSID_LENGTH = 6\<rparr>"

definition blank_result :: ScanResult where
  "blank_result = \<lparr>num_networks = 0, is_valid = False, rssi = 0, security_mode = 0,
     ssid_length = 0, scan_ssid = replicate 32 0, scan_bssid = replicate 6 0\<rparr>"

definition blank_ipconfig :: tNetappIpconfigRetArgs where
  "blank_ipconfig = \<lparr>aucIP = replicate 4 0, aucSubnetMask = replicate 4 0,
     aucDefaultGateway = replicate 4 0, aucDHCPServer = replicate 4 0,
     aucDNSServer = replicate 4 0, uaMacAddr = replicate 6 0, uaSSID = replicate 32 0\<rparr>"

text \<open>Memory that is all zero, and the driver constructed in it and initialised.\<close>

definition zero_memory :: state where
  "zero_memory = \<lparr>is_initialized = False, num_access_points = 0, access_point_count = 0,
     ap_scan_result = blank_result, connection_info = blank_ipconfig,
     g_int_pin = 0, g_int_num = 0, g_en_pin = 0, g_cs_pin = 0,
     ulSmartConfigFinished = 0, ucStopSmartConfig = 0, ulCC3000Connected = 0,
     ulCC3000DHCP = 0, ulCC3000DHCP_configured = 0, OkToDoShutDown = 0,
     clock_ms = 0, cmds = []\<rparr>"

definition fresh :: state where
  "fresh = SFE_CC3000 zero_memory 2 7 10"

definition ready :: state where
  "ready = snd (init True fresh)"

text \<open>
  A scan result for the network \<open>home\<close>, one of two networks found; a caller's struct
  with room for a 32 byte name and its terminator; answers of the vendor library to a
  request for scan results.
\<close>

definition home_net :: ScanResult where
  "home_net = \<lparr>num_networks = 2, is_valid = True, rssi = 60, security_mode = 3,
     ssid_length = 4, scan_ssid = [104, 111, 109, 101] @ replicate 28 0,
     scan_bssid = [1, 2, 3, 4, 5, 6]\<rparr>"

definition empty_info :: AccessPointInfo where
  "empty_info = \<lparr>ap_rssi = 0, ap_security_mode = 0, ap_ssid = replicate 33 7,
     ap_bssid = replicate 6 0\<rparr>"

definition home_info :: AccessPointInfo where
  "home_info = \<lparr>ap_rssi = 60, ap_security_mode = 3,
     ap_ssid = [104, 111, 109, 101, 0] @ replicate 28 7, ap_bssid = [1, 2, 3, 4, 5, 6]\<rparr>"

definition found :: "ScanResult \<Rightarrow> scan_reply" where
  "found r = \<lparr>sr_status = 0, sr_data = r\<rparr>"

definition failed :: "ScanResult \<Rightarrow> scan_reply" where
  "failed r = \<lparr>sr_status = 1, sr_data = r\<rparr>"

text \<open>The initialised driver after a scan that found \<open>home\<close> first.\<close>

definition scanned :: state where
  "scanned = snd (scanAccessPoints vendor0 ready 4000 (\<lambda>k. 0) 0 (found home_net) 0)"

text \<open>
  The initialised driver after a scan whose request for the first results failed, and
  after a scan whose results were fetched but whose stop command was rejected.
\<close>

definition scan_without_results :: state where
  "scan_without_results = snd (scanAccessPoints vendor0 ready 4000 (\<lambda>k. 0) 0 (failed home_net) 0)"

definition scan_not_stopped :: state where
  "scan_not_stopped = snd (scanAccessPoints vendor0 ready 4000 (\<lambda>k. 0) 0 (found home_net) 1)"

text \<open>The initialised driver with both status flags set by the callback.\<close>

definition online :: state where
  "online = ready\<lparr>ulCC3000Connected := 1, ulCC3000DHCP := 1\<rparr>"

text \<open>
  What the other two vendor calls of \<open>connect\<close> can meet. The policy command is
  accepted after 2 ms. The configuration query takes 3 ms and leaves both flags set,
  or the DHCP flag only, or (the network is lost meanwhile) none.
\<close>

definition policy_set :: tick where
  "policy_set = \<lparr>t_status = 0, t_elapsed = 2, t_connected = 0, t_dhcp = 0\<rparr>"

definition query_online :: tick where
  "query_online = \<lparr>t_status = 0, t_elapsed = 3, t_connected = 1, t_dhcp = 1\<rparr>"

definition query_dhcp_only :: tick where
  "query_dhcp_only = \<lparr>t_status = 0, t_elapsed = 3, t_connected = 0, t_dhcp = 1\<rparr>"

definition query_offline :: tick where
  "query_offline = \<lparr>t_status = 0, t_elapsed = 3, t_connected = 0, t_dhcp = 0\<rparr>"

text \<open>Rounds of the polling loops.\<close>

definition accepted :: tick where
  "accepted = \<lparr>t_status = 0, t_elapsed = 5, t_connected = 0, t_dhcp = 0\<rparr>"

definition rejected :: tick where
  "rejected = \<lparr>t_status = 1, t_elapsed = 5, t_connected = 0, t_dhcp = 0\<rparr>"

definition connected_and_dhcp :: tick where
  "connected_and_dhcp = \<lparr>t_status = 0, t_elapsed = 3000, t_connected = 1, t_dhcp = 1\<rparr>"

definition dhcp_only :: tick where
  "dhcp_only = \<lparr>t_status = 0, t_elapsed = 3000, t_connected = 0, t_dhcp = 1\<rparr>"

text \<open>A rejected connect command that returns after \<open>2 ^ 32 - 10\<close> ms.\<close>

definition rejected_late :: tick where
  "rejected_late = \<lparr>t_status = 1, t_elapsed = 4294967286, t_connected = 0, t_dhcp = 0\<rparr>"

definition rejected_at_once :: tick where
  "rejected_at_once = \<lparr>t_status = 1, t_elapsed = 0, t_connected = 0, t_dhcp = 0\<rparr>"

section \<open>Initialisation is idempotent\<close>

lemma ready_initialized: "is_initialized ready"
  by (simp add: ready_def fresh_def init_def init_hardware_def SFE_CC3000_def zero_memory_def
      issue_def delay_def Let_def)

lemma ready_simps:
  "ulCC3000DHCP ready = 0" "ulCC3000Connected ready = 0" "clock_ms ready = 100"
  "num_access_points ready = 0" "access_point_count ready = 0"
  by (simp_all add: ready_def fresh_def init_def init_hardware_def SFE_CC3000_def zero_memory_def
      issue_def delay_def Let_def)

lemma vendor0_simps:
  "CC3000_SUCCESS vendor0 = 0" "WLAN_SEC_UNSEC vendor0 = 0" "WLAN_SEC_WEP vendor0 = 1"
  "WLAN_SEC_WPA vendor0 = 2" "WLAN_SEC_WPA2 vendor0 = 3" "SCAN_NUM_CHANNELS vendor0 = 16"
  "SCAN_CHANNEL_TIMEOUT vendor0 = 2000" "BSSID_LENGTH vendor0 = 6"
  by (simp_all add: vendor0_def)

lemma reply_simps:
  "sr_status (found r) = 0" "sr_data (found r) = r"
  "sr_status (failed r) = 1" "sr_data (failed r) = r"
  by (simp_all add: found_def failed_def)

lemma valid_simps: "is_valid home_net" "\<not> is_valid blank_result" "num_networks home_net = 2"
  by (simp_all add: home_net_def blank_result_def)

lemmas connect_eval =
  connect_def connect_wait_def wlan_ioctl_set_connection_policy_def policy_set_def
  query_online_def query_dhcp_only_def query_offline_def getDHCPStatus_def getConnectionStatus_def vendor0_def issue_def delay_def
  elapse_def timed_out_def millis_def netapp_ipconfig_def wlan_connect_def Let_def
  word_less_nat_alt accepted_def rejected_def connected_and_dhcp_def dhcp_only_def
  rejected_late_def rejected_at_once_def

text \<open>
  C9: if the driver is already initialised, \<open>init\<close> returns true at once: no pin is
  validated or configured, no bus is set up, the chip is not started (the record of
  calls and the clock are part of the state), and the whole state is unchanged.
\<close>

theorem C9_init_idempotent: "is_initialized s \<Longrightarrow> init avr s = (True, s)"
  by (simp add: init_def)

theorem C9_init_idempotent_witness:
  "is_initialized ready \<and> init True ready = (True, ready) \<and> cmds ready \<noteq> []"
proof -
  have "cmds ready \<noteq> []"
    by (simp add: ready_def fresh_def init_def init_hardware_def SFE_CC3000_def zero_memory_def
        issue_def delay_def Let_def)
  then show ?thesis
    using ready_initialized C9_init_idempotent [OF ready_initialized, of True] by simp
qed

section \<open>What a successful connect guarantees\<close>

lemma wait_dhcp_True: "wait_dhcp timeout time s ticks = Some (True, s') \<Longrightarrow> getDHCPStatus s'"
  by (induction ticks arbitrary: s) (auto split: if_splits)

lemma connect_wait_True:
  "connect_wait v s ssid security password timeout policy ticks = Some (True, s3)
   \<Longrightarrow> getDHCPStatus s3"
  by (auto simp: connect_wait_def Let_def
      split: if_splits option.splits prod.splits loop_exit.splits dest: wait_dhcp_True)

text \<open>
  C1, as stated: whenever \<open>connect\<close> returns true, both the \<open>connected\<close> and the
  \<open>dhcpAssigned\<close> flag are set at the moment of return. This fails in two ways.
  First, the retry loop is also left by \<open>break\<close> as soon as a connect command is
  accepted, and after it only the DHCP flag is polled: in the first run the command is
  accepted in the first round, the callback then sets the DHCP flag and never the
  connection flag, and \<open>connect\<close> returns true with the connection flag clear.
  Second, \<open>netapp_ipconfig\<close> is called between the last poll and the return: in the
  second run both flags are set when the DHCP wait ends, the callback clears them while
  the configuration is read, and \<open>connect\<close> returns true with the DHCP flag clear.
\<close>

theorem C1_flags_at_return_counterexample:
  "map_option fst
     (connect vendor0 ready ''net'' 0 '''' 5000 policy_set blank_ipconfig query_dhcp_only
        [accepted, dhcp_only]) = Some True
   \<and> map_option (getConnectionStatus \<circ> snd)
     (connect vendor0 ready ''net'' 0 '''' 5000 policy_set blank_ipconfig query_dhcp_only
        [accepted, dhcp_only]) = Some False
   \<and> map_option fst
     (connect vendor0 ready ''net'' 0 '''' 5000 policy_set blank_ipconfig query_offline
        [accepted, connected_and_dhcp]) = Some True
   \<and> map_option (getDHCPStatus \<circ> snd)
     (connect vendor0 ready ''net'' 0 '''' 5000 policy_set blank_ipconfig query_offline
        [accepted, connected_and_dhcp]) = Some False"
  by (simp add: connect_eval ready_initialized ready_simps)

text \<open>
  C1, amended: whenever \<open>connect\<close> returns true, the \<open>dhcpAssigned\<close> flag was set at
  the last poll of the DHCP wait: the part of \<open>connect\<close> before the configuration query
  has ended in a state \<open>s3\<close> whose DHCP flag is set, and the state at the return is
  \<open>s3\<close> after \<open>netapp_ipconfig\<close>. Nothing is promised for the connection flag, nor for
  either flag at the moment of return.
\<close>

theorem C1_connect_true_dhcp_polled:
  "connect v s ssid security password timeout policy ipconfig t_ipconfig ticks = Some (True, s')
   \<Longrightarrow> \<exists>s3. connect_wait v s ssid security password timeout policy ticks = Some (True, s3)
          \<and> getDHCPStatus s3
          \<and> s' = netapp_ipconfig ipconfig t_ipconfig s3"
  by (auto simp: connect_def split: option.splits prod.splits bool.splits
      dest: connect_wait_True)

theorem C1_connect_true_dhcp_polled_witness:
  "\<exists>s3. connect_wait vendor0 ready ''net'' 0 '''' 5000 policy_set
            [accepted, connected_and_dhcp] = Some (True, s3)
        \<and> getDHCPStatus s3
        \<and> snd (the (connect vendor0 ready ''net'' 0 '''' 5000 policy_set blank_ipconfig
               query_offline [accepted, connected_and_dhcp]))
            = netapp_ipconfig blank_ipconfig query_offline s3"
proof -
  let ?r = "connect vendor0 ready ''net'' 0 '''' 5000 policy_set blank_ipconfig query_offline
              [accepted, connected_and_dhcp]"
  have "map_option fst ?r = Some True"
    by (simp add: connect_eval ready_initialized ready_simps)
  then have "?r = Some (True, snd (the ?r))"
    by (cases ?r) auto
  then show ?thesis
    by (rule C1_connect_true_dhcp_polled)
qed

section \<open>Refused calls of connect\<close>

text \<open>
  C5: when the driver is not initialised, or the DHCP flag is already set, or the
  security mode is none of the four known ones, \<open>connect\<close> returns false and the state
  is the one it was called in: no command was issued (the record of calls is part of
  the state) and no member or global has changed.
\<close>

theorem C5_connect_refused:
  "\<not> is_initialized s \<or> getDHCPStatus s \<or>
   \<not> (security = WLAN_SEC_UNSEC v \<or> security = WLAN_SEC_WEP v \<or>
      security = WLAN_SEC_WPA v \<or> security = WLAN_SEC_WPA2 v)
   \<Longrightarrow> connect v s ssid security password timeout policy ipconfig t_ipconfig ticks
       = Some (False, s)"
  by (auto simp: connect_def connect_wait_def)

theorem C5_connect_refused_witness:
  "connect vendor0 fresh ''net'' 0 '''' 5000 policy_set blank_ipconfig query_online [accepted]
     = Some (False, fresh)
   \<and> connect vendor0 (ready\<lparr>ulCC3000DHCP := 1\<rparr>) ''net'' 0 '''' 5000 policy_set blank_ipconfig
       query_online [accepted]
       = Some (False, ready\<lparr>ulCC3000DHCP := 1\<rparr>)
   \<and> connect vendor0 ready ''net'' 7 '''' 5000 policy_set blank_ipconfig query_online [accepted]
       = Some (False, ready)"
proof -
  have a: "\<not> is_initialized fresh"
    by (simp add: fresh_def SFE_CC3000_def)
  have b: "getDHCPStatus (ready\<lparr>ulCC3000DHCP := 1\<rparr>)"
    by (simp add: getDHCPStatus_def)
  have c: "\<not> ((7::u16) = WLAN_SEC_UNSEC vendor0 \<or> 7 = WLAN_SEC_WEP vendor0 \<or>
      7 = WLAN_SEC_WPA vendor0 \<or> 7 = WLAN_SEC_WPA2 vendor0)"
    by (simp add: vendor0_def)
  show ?thesis
    using C5_connect_refused [of fresh _ vendor0] a
      C5_connect_refused [of "ready\<lparr>ulCC3000DHCP := 1\<rparr>" _ vendor0] b
      C5_connect_refused [of ready 7 vendor0] c
    by simp
qed

section \<open>The deadline of connect\<close>

lemma timed_out_iff:
  assumes "t0 \<le> clock_ms s" and "clock_ms s - t0 < 2 ^ 32"
  shows "timed_out timeout (of_nat t0) s \<longleftrightarrow> timeout \<noteq> 0 \<and> unat timeout < clock_ms s - t0"
proof -
  have d: "millis s - of_nat t0 = (of_nat (clock_ms s - t0) :: u32)"
    using assms(1) by (simp add: millis_def)
  have u: "unat (of_nat (clock_ms s - t0) :: u32) = clock_ms s - t0"
    using assms(2) by (simp add: unat_of_nat)
  have c: "unat (ucast timeout :: u32) = unat timeout"
    by (simp add: unsigned_ucast_eq take_bit_nat_eq_self_iff)
      (use unsigned_less [of timeout, where ?'a = nat] in simp)
  show ?thesis
    unfolding timed_out_def d by (simp add: word_less_nat_alt u c)
qed

lemma attempts_give_up:
  assumes "timeout \<noteq> 0"
    and "\<forall>t\<in>set ticks. t_status t \<noteq> CC3000_SUCCESS v \<and> t_connected t \<noteq> 1 \<and> t_elapsed t \<le> D"
    and "unat timeout + 10 + D < 2 ^ 32"
    and "\<not> getConnectionStatus s"
    and "t0 \<le> clock_ms s"
    and "clock_ms s - t0 \<le> unat timeout"
    and "unat timeout < (clock_ms s - t0) + 10 * length ticks"
  shows "\<exists>s' rest.
      connect_attempts v ssid security password timeout (of_nat t0) s ticks = Some (GiveUp, s', rest)
      \<and> clock_ms s' \<le> t0 + unat timeout + 10 + D"
  using assms
proof (induction ticks arbitrary: s)
  case Nil
  then show ?case by simp
next
  case (Cons t ts)
  let ?s2 = "elapse t (issue (wlan_connect v ssid security password) (delay 10 s))"
  have clk: "clock_ms ?s2 = clock_ms s + 10 + t_elapsed t"
    by (simp add: elapse_def issue_def delay_def)
  have el: "t_elapsed t \<le> D" and rej: "t_status t \<noteq> CC3000_SUCCESS v"
    and nc: "t_connected t \<noteq> 1"
    using Cons.prems(2) by simp_all
  have ncs: "\<not> getConnectionStatus ?s2"
    using nc by (simp add: getConnectionStatus_def elapse_def)
  have le: "t0 \<le> clock_ms ?s2"
    using Cons.prems(5) clk by simp
  have bound: "clock_ms ?s2 - t0 \<le> unat timeout + 10 + D"
    using clk el Cons.prems(5,6) by simp
  then have lt: "clock_ms ?s2 - t0 < 2 ^ 32"
    using Cons.prems(3) by simp
  note deadline = timed_out_iff [OF le lt, of timeout]
  show ?case
  proof (cases "timed_out timeout (of_nat t0) ?s2")
    case True
    then show ?thesis
      using Cons.prems(4) rej bound le by (simp add: Let_def)
  next
    case False
    then have a: "clock_ms ?s2 - t0 \<le> unat timeout"
      using deadline Cons.prems(1) by simp
    have b: "unat timeout < (clock_ms ?s2 - t0) + 10 * length ts"
      using Cons.prems(5,7) clk by simp
    have "\<forall>t\<in>set ts. t_status t \<noteq> CC3000_SUCCESS v \<and> t_connected t \<noteq> 1 \<and> t_elapsed t \<le> D"
      using Cons.prems(2) by simp
    from Cons.IH [OF Cons.prems(1) this Cons.prems(3) ncs le a b]
    show ?thesis
      using Cons.prems(4) rej False by (simp add: Let_def)
  qed
qed

text \<open>
  C4, as stated: for every timeout \<open>T > 0\<close>, if the flags are never set and every connect
  command is rejected, \<open>connect\<close> returns false no later than \<open>T\<close> ms plus one round of
  the retry loop after entering the loop. This fails when a round lasts so long that
  the 32-bit millisecond counter comes round: with \<open>T = 1\<close> and a first round of
  \<open>2 ^ 32\<close> ms (10 ms pause, command rejected after \<open>2 ^ 32 - 10\<close> ms) the difference
  \<open>millis() - time\<close> is 0 at the end of the round, the loop goes on, and \<open>connect\<close>
  returns only after the next round, 4294967306 ms after entering the loop (the state
  after the policy command, in which \<open>time\<close> is read), which is more than \<open>T\<close> plus the
  longest round (4294967297 ms). When every round lasts \<open>2 ^ 32\<close> ms the loop does not
  end at all.
\<close>

theorem C4_deadline_counterexample:
  "map_option fst
     (connect vendor0 ready ''net'' 0 '''' 1 policy_set blank_ipconfig query_offline
        [rejected_late, rejected_at_once])
     = Some False
   \<and> map_option (clock_ms \<circ> snd)
     (connect vendor0 ready ''net'' 0 '''' 1 policy_set blank_ipconfig query_offline
        [rejected_late, rejected_at_once])
     = Some (clock_ms (wlan_ioctl_set_connection_policy policy_set ready) + 4294967306)
   \<and> connect vendor0 ready ''net'' 0 '''' 1 policy_set blank_ipconfig query_offline
       [rejected_late, rejected_late, rejected_late] = None"
  by (simp add: connect_eval ready_initialized ready_simps)

text \<open>
  C4, amended: let \<open>T > 0\<close> be the timeout, let \<open>connect\<close> enter its retry loop (the
  guards pass and the policy command is accepted), let the connection flag be clear
  when the loop is entered and after every round, let every connect command be
  rejected, and let every connect command return within \<open>D\<close> ms, where
  \<open>T + 10 + D < 2 ^ 32\<close>. Then \<open>connect\<close> returns, it returns false, and it does so at
  most \<open>T + 10 + D\<close> ms (the timeout plus one round) after entering the retry loop:
  the bound is counted from the clock of the state after the policy command, in which
  \<open>time = millis()\<close> is read, however long that command has taken. Every round lasts at
  least 10 ms, so more than \<open>T / 10\<close> rounds of the vendor library's answers are enough
  to reach the return.
\<close>

theorem C4_connect_deadline:
  assumes "timeout \<noteq> 0"
    and "is_initialized s" and "\<not> getDHCPStatus s"
    and "security = WLAN_SEC_UNSEC v \<or> security = WLAN_SEC_WEP v \<or>
         security = WLAN_SEC_WPA v \<or> security = WLAN_SEC_WPA2 v"
    and "t_status policy = CC3000_SUCCESS v" and "t_connected policy \<noteq> 1"
    and "\<forall>t\<in>set ticks. t_status t \<noteq> CC3000_SUCCESS v \<and> t_connected t \<noteq> 1 \<and> t_elapsed t \<le> D"
    and "unat timeout + 10 + D < 2 ^ 32"
    and "unat timeout < 10 * length ticks"
  shows "\<exists>s'. connect v s ssid security password timeout policy ipconfig t_ipconfig ticks
              = Some (False, s')
            \<and> clock_ms s'
                \<le> clock_ms (wlan_ioctl_set_connection_policy policy s) + unat timeout + 10 + D"
proof -
  let ?s1 = "wlan_ioctl_set_connection_policy policy s"
  have n: "\<not> getConnectionStatus ?s1"
    using assms(6)
    by (simp add: getConnectionStatus_def wlan_ioctl_set_connection_policy_def elapse_def)
  have "\<exists>s' rest.
      connect_attempts v ssid security password timeout (of_nat (clock_ms ?s1)) ?s1 ticks
        = Some (GiveUp, s', rest)
      \<and> clock_ms s' \<le> clock_ms ?s1 + unat timeout + 10 + D"
    by (rule attempts_give_up [OF assms(1) assms(7) assms(8) n]) (use assms(9) in simp_all)
  then obtain s' rest where
    r: "connect_attempts v ssid security password timeout (millis ?s1) ?s1 ticks
          = Some (GiveUp, s', rest)"
    and b: "clock_ms s' \<le> clock_ms ?s1 + unat timeout + 10 + D"
    unfolding millis_def by auto
  have "connect_wait v s ssid security password timeout policy ticks = Some (False, s')"
    using assms(2-5) r by (simp add: connect_wait_def Let_def)
  then show ?thesis
    using b by (simp add: connect_def)
qed

theorem C4_connect_deadline_witness:
  "\<exists>s'. connect vendor0 ready ''net'' 0 '''' 25 policy_set blank_ipconfig query_offline
          [rejected, rejected, rejected]
          = Some (False, s')
        \<and> clock_ms s'
            \<le> clock_ms (wlan_ioctl_set_connection_policy policy_set ready) + unat (25::u16) + 10 + 5"
proof -
  have a: "(25::u16) \<noteq> 0" by simp
  have g: "\<not> getDHCPStatus ready"
    by (simp add: getDHCPStatus_def ready_simps)
  have m: "(0::u16) = WLAN_SEC_UNSEC vendor0 \<or> 0 = WLAN_SEC_WEP vendor0 \<or>
         0 = WLAN_SEC_WPA vendor0 \<or> 0 = WLAN_SEC_WPA2 vendor0"
    by (simp add: vendor0_simps)
  have p: "t_status policy_set = CC3000_SUCCESS vendor0"
    and q: "t_connected policy_set \<noteq> 1"
    by (simp_all add: policy_set_def vendor0_simps)
  have c: "\<forall>t\<in>set [rejected, rejected, rejected].
      t_status t \<noteq> CC3000_SUCCESS vendor0 \<and> t_connected t \<noteq> 1 \<and> t_elapsed t \<le> 5"
    by (simp add: rejected_def vendor0_def)
  have d: "unat (25::u16) + 10 + 5 < (2::nat) ^ 32" by simp
  have e: "unat (25::u16) < 10 * length [rejected, rejected, rejected]" by simp
  show ?thesis
    by (rule C4_connect_deadline [OF a ready_initialized g m p q c d e])
qed

section \<open>The channel interval list\<close>

lemma channel_timeouts_loop_eq:
  "channel_timeouts_loop v i c =
     (if i < SCAN_NUM_CHANNELS v then c[0 := SCAN_CHANNEL_TIMEOUT v] else c)"
proof (induction v i c rule: channel_timeouts_loop.induct)
  case (1 v i c)
  show ?case
    by (subst channel_timeouts_loop.simps) (use 1 in simp)
qed

lemma replicate_numeral: "replicate (numeral k) x = x # replicate (pred_numeral k) x"
  by (simp add: numeral_eq_Suc)

lemma upt_16: "[0..<16] = [0, 1, 2, 3, 4, 5, 6, 7, 8, 9, 10, 11, 12, 13, 14, 15::nat]"
  by (simp add: upt_rec)

lemma channel_timeouts_rest:
  assumes "0 < k" and "k < SCAN_NUM_CHANNELS v"
  shows "channel_timeouts_loop v 0 (map uninit [0 ..< SCAN_NUM_CHANNELS v]) ! k = uninit k"
proof -
  let ?c = "map uninit [0 ..< SCAN_NUM_CHANNELS v]"
  have "0 < SCAN_NUM_CHANNELS v"
    using assms by linarith
  then have "channel_timeouts_loop v 0 ?c = ?c[0 := SCAN_CHANNEL_TIMEOUT v]"
    by (simp only: channel_timeouts_loop_eq if_True)
  moreover have "?c[0 := SCAN_CHANNEL_TIMEOUT v] ! k = ?c ! k"
    using assms(1) by (simp only: nth_list_update_neq less_imp_neq not_False_eq_True)
  moreover have "?c ! k = uninit k"
    using assms(2) by (simp only: nth_map length_upt nth_upt diff_zero add_0)
  ultimately show ?thesis by (simp only:)
qed

text \<open>
  C2 says that every entry of the channel interval list is set to the channel timeout
  before the list is handed to the scan configuration command. The loop writes entry 0
  in each of its rounds, so the other entries keep what the stack held: with 16
  channels, a timeout of 2000 and a stack of zeros, both scan configuration commands
  of a successful scan get the list 2000, 0, ..., 0.
\<close>

theorem C2_channel_timeouts_first_entry_only:
  "cmds (snd (scanAccessPoints vendor0 ready 4000 (\<lambda>k. 0) 0 (found home_net) 0))
     = cmds ready @ [SetScanParams 4000 (2000 # replicate 15 0), GetScanResults 0,
                     SetScanParams 0 (2000 # replicate 15 0)]"
  by (simp add: scanAccessPoints_def ready_initialized channel_timeouts_loop_eq vendor0_def
      issue_def delay_def wlan_ioctl_get_scan_results_def found_def upt_16 Let_def
      replicate_numeral)

section \<open>The caller's struct after a failed read-ahead\<close>

lemma strncpy_Some:
  assumes "strncpy dst src n = Some r"
  shows "length r = length dst" and "n \<le> length dst"
proof -
  let ?str = "takeWhile (\<lambda>c. c \<noteq> 0) (take n src)"
  have le: "length ?str \<le> n"
    by (rule order_trans [OF length_takeWhile_le]) simp
  have n: "n \<le> length dst" and r: "r = ?str @ replicate (n - length ?str) 0 @ drop n dst"
    using assms by (auto simp: strncpy_def Let_def split: if_splits)
  show "n \<le> length dst" by (rule n)
  show "length r = length dst" using le n by (simp add: r)
qed

lemma store_Some: "store xs i v = Some r \<Longrightarrow> i < length xs \<and> r = xs[i := v]"
  by (simp add: store_def split: if_splits)

lemma memcpy_Some:
  "memcpy dst src n = Some r
   \<Longrightarrow> n \<le> length dst \<and> n \<le> length src \<and> r = take n src @ drop n dst"
  by (simp add: memcpy_def split: if_splits)

lemma fill_ap_info_Some:
  assumes "fill_ap_info v r ap = Some ap'"
  shows "ap_rssi ap' = rssi r" "ap_security_mode ap' = security_mode r"
    "ssid_length r < length (ap_ssid ap')"
    "ap_ssid ap' ! ssid_length r = 0"
    "take (BSSID_LENGTH v) (ap_bssid ap') = take (BSSID_LENGTH v) (scan_bssid r)"
    "length (ap_ssid ap') = length (ap_ssid ap)"
    "length (ap_bssid ap') = length (ap_bssid ap)"
proof -
  from assms obtain copied terminated b where
    c: "strncpy (ap_ssid ap) (scan_ssid r) (ssid_length r) = Some copied"
    and t: "store copied (ssid_length r) 0 = Some terminated"
    and m: "memcpy (ap_bssid ap) (scan_bssid r) (BSSID_LENGTH v) = Some b"
    and ap': "ap' = ap\<lparr>ap_rssi := rssi r, ap_security_mode := security_mode r,
                 ap_ssid := terminated, ap_bssid := b\<rparr>"
    by (auto simp: fill_ap_info_def split: option.splits)
  note c' = strncpy_Some [OF c] and t' = store_Some [OF t] and m' = memcpy_Some [OF m]
  show "ap_rssi ap' = rssi r" "ap_security_mode ap' = security_mode r"
    by (simp_all add: ap')
  show "ssid_length r < length (ap_ssid ap')" using t' by (simp add: ap')
  show "ap_ssid ap' ! ssid_length r = 0" using t' by (simp add: ap')
  show "take (BSSID_LENGTH v) (ap_bssid ap') = take (BSSID_LENGTH v) (scan_bssid r)"
    using m' by (simp add: ap')
  show "length (ap_ssid ap') = length (ap_ssid ap)" using t' c' by (simp add: ap')
  show "length (ap_bssid ap') = length (ap_bssid ap)" using m' by (simp add: ap')
qed

lemma scanned_simps:
  "is_initialized scanned" "ap_scan_result scanned = home_net"
  "num_access_points scanned = 2" "access_point_count scanned = 0"
  by (simp_all add: scanned_def scanAccessPoints_def ready_initialized vendor0_def issue_def
      delay_def wlan_ioctl_get_scan_results_def found_def home_net_def Let_def)

lemma fill_home: "fill_ap_info vendor0 home_net empty_info = Some home_info"
  by (simp add: fill_ap_info_def strncpy_def store_def memcpy_def home_net_def empty_info_def
      home_info_def vendor0_def Let_def replicate_numeral)

text \<open>
  C10: once the three guards have passed (initialised, buffered record valid, count
  below the number of networks) the fields of the buffered record are written into
  the caller's struct, and this happens before the read-ahead request: the struct
  \<open>ap_info'\<close> does not depend on the answer \<open>fetch\<close>. When the request fails,
  \<open>getNextAccessPoint\<close> returns false, the caller's struct holds the record (signal
  strength, security mode, the name's terminator at the reported length, the BSSID),
  and the count is the one before the call. The fourth premise says that the copies
  stay inside the arrays.
\<close>

theorem C10_failed_fetch_overwrites_ap_info:
  assumes "is_initialized s" and "is_valid (ap_scan_result s)"
    and "access_point_count s < num_access_points s"
    and "fill_ap_info v (ap_scan_result s) ap_info = Some ap_info'"
    and "sr_status fetch \<noteq> CC3000_SUCCESS v"
  shows "getNextAccessPoint v s ap_info fetch
           = Some (False, wlan_ioctl_get_scan_results fetch s, ap_info')
     \<and> access_point_count (wlan_ioctl_get_scan_results fetch s) = access_point_count s
     \<and> ap_rssi ap_info' = rssi (ap_scan_result s)
     \<and> ap_security_mode ap_info' = security_mode (ap_scan_result s)
     \<and> ap_ssid ap_info' ! ssid_length (ap_scan_result s) = 0
     \<and> take (BSSID_LENGTH v) (ap_bssid ap_info')
         = take (BSSID_LENGTH v) (scan_bssid (ap_scan_result s))"
  using assms fill_ap_info_Some [OF assms(4)]
  by (simp add: getNextAccessPoint_def wlan_ioctl_get_scan_results_def issue_def)

theorem C10_failed_fetch_overwrites_ap_info_witness:
  "getNextAccessPoint vendor0 scanned empty_info (failed blank_result)
     = Some (False, wlan_ioctl_get_scan_results (failed blank_result) scanned, home_info)
   \<and> access_point_count (wlan_ioctl_get_scan_results (failed blank_result) scanned) = 0
   \<and> home_info \<noteq> empty_info"
proof -
  have f: "fill_ap_info vendor0 (ap_scan_result scanned) empty_info = Some home_info"
    by (simp add: scanned_simps fill_home)
  have v: "is_valid (ap_scan_result scanned)"
    by (simp add: scanned_simps home_net_def)
  have c: "access_point_count scanned < num_access_points scanned"
    by (simp add: scanned_simps)
  have r: "sr_status (failed blank_result) \<noteq> CC3000_SUCCESS vendor0"
    by (simp add: failed_def vendor0_def)
  have d: "home_info \<noteq> empty_info"
    by (simp add: home_info_def empty_info_def)
  from C10_failed_fetch_overwrites_ap_info [OF scanned_simps(1) v c f r] d
  show ?thesis by (simp add: scanned_simps)
qed

section \<open>Retrieving all scan results\<close>

lemma fill_ap_info_defined:
  assumes "length (ap_ssid a) = length (ap_ssid b)"
    and "length (ap_bssid a) = length (ap_bssid b)"
    and "fill_ap_info v r a \<noteq> None"
  shows "fill_ap_info v r b \<noteq> None"
proof -
  from assms(3) obtain a' where a': "fill_ap_info v r a = Some a'" by auto
  then obtain copied terminated bs where
    c: "strncpy (ap_ssid a) (scan_ssid r) (ssid_length r) = Some copied"
    and t: "store copied (ssid_length r) 0 = Some terminated"
    and m: "memcpy (ap_bssid a) (scan_bssid r) (BSSID_LENGTH v) = Some bs"
    by (auto simp: fill_ap_info_def split: option.splits)
  from c have c2: "strncpy (ap_ssid b) (scan_ssid r) (ssid_length r) \<noteq> None"
    using assms(1) by (auto simp: strncpy_def Let_def split: if_splits)
  then obtain copied2 where
    c2': "strncpy (ap_ssid b) (scan_ssid r) (ssid_length r) = Some copied2"
    by auto
  have "length copied2 = length copied"
    using strncpy_Some(1) [OF c] strncpy_Some(1) [OF c2'] assms(1) by simp
  then have t2: "store copied2 (ssid_length r) 0 \<noteq> None"
    using t by (auto simp: store_def split: if_splits)
  have m2: "memcpy (ap_bssid b) (scan_bssid r) (BSSID_LENGTH v) \<noteq> None"
    using m assms(2) by (auto simp: memcpy_def split: if_splits)
  show ?thesis
    using c2' t2 m2 by (auto simp: fill_ap_info_def split: option.splits)
qed

lemma getNextAccessPoint_True:
  assumes "is_initialized s" and "is_valid (ap_scan_result s)"
    and "access_point_count s < num_access_points s"
    and "fill_ap_info v (ap_scan_result s) ap = Some ap'"
    and "sr_status f = CC3000_SUCCESS v"
  shows "getNextAccessPoint v s ap f =
     Some (True,
       (wlan_ioctl_get_scan_results f s)\<lparr>access_point_count := access_point_count s + 1\<rparr>,
       ap')"
  using assms by (simp add: getNextAccessPoint_def wlan_ioctl_get_scan_results_def issue_def)

lemma calls_all_true:
  assumes "is_initialized s"
    and "access_point_count s + length fs = num_access_points s"
    and "\<forall>f\<in>set fs. sr_status f = CC3000_SUCCESS v"
    and "\<forall>r\<in>set (butlast (ap_scan_result s # map sr_data fs)).
           is_valid r \<and> fill_ap_info v r ap \<noteq> None"
  shows "\<exists>s' ap'.
      getNextAccessPoint_calls v s ap fs = Some (replicate (length fs) True, s', ap')
      \<and> is_initialized s' \<and> access_point_count s' = num_access_points s
      \<and> num_access_points s' = num_access_points s"
  using assms
proof (induction fs arbitrary: s ap)
  case Nil
  then show ?case by simp
next
  case (Cons f fs)
  let ?s1 = "(wlan_ioctl_get_scan_results f s)\<lparr>access_point_count := access_point_count s + 1\<rparr>"
  have v0: "is_valid (ap_scan_result s)" and d0: "fill_ap_info v (ap_scan_result s) ap \<noteq> None"
    using Cons.prems(4) by simp_all
  from d0 obtain ap1 where ap1: "fill_ap_info v (ap_scan_result s) ap = Some ap1" by auto
  have lt: "access_point_count s < num_access_points s"
    using Cons.prems(2) by simp
  have ok: "sr_status f = CC3000_SUCCESS v"
    using Cons.prems(3) by simp
  have step: "getNextAccessPoint v s ap f = Some (True, ?s1, ap1)"
    by (rule getNextAccessPoint_True [OF Cons.prems(1) v0 lt ap1 ok])
  have i1: "is_initialized ?s1"
    using Cons.prems(1) by (simp add: wlan_ioctl_get_scan_results_def issue_def)
  have n1: "num_access_points ?s1 = num_access_points s"
    by (simp add: wlan_ioctl_get_scan_results_def issue_def)
  have c1: "access_point_count ?s1 + length fs = num_access_points ?s1"
    using Cons.prems(2) by (simp add: wlan_ioctl_get_scan_results_def issue_def)
  have b1: "ap_scan_result ?s1 = sr_data f"
    by (simp add: wlan_ioctl_get_scan_results_def issue_def)
  have s1: "\<forall>f\<in>set fs. sr_status f = CC3000_SUCCESS v"
    using Cons.prems(3) by simp
  have r1: "\<forall>r\<in>set (butlast (ap_scan_result ?s1 # map sr_data fs)).
           is_valid r \<and> fill_ap_info v r ap1 \<noteq> None"
  proof
    fix r assume "r \<in> set (butlast (ap_scan_result ?s1 # map sr_data fs))"
    then have "r \<in> set (butlast (sr_data f # map sr_data fs))"
      by (simp only: b1)
    then have "r \<in> set (butlast (ap_scan_result s # map sr_data (f # fs)))"
      by simp
    then have "is_valid r" and "fill_ap_info v r ap \<noteq> None"
      using Cons.prems(4) by blast+
    then show "is_valid r \<and> fill_ap_info v r ap1 \<noteq> None"
      using fill_ap_info_defined [of ap ap1 v r] fill_ap_info_Some(6,7) [OF ap1] by simp
  qed
  from Cons.IH [OF i1 c1 s1 r1] obtain s' ap' where
    "getNextAccessPoint_calls v ?s1 ap1 fs = Some (replicate (length fs) True, s', ap')"
    "is_initialized s'" "access_point_count s' = num_access_points ?s1"
    "num_access_points s' = num_access_points ?s1"
    by blast
  then show ?case
    using step n1 by simp
qed

lemma scanAccessPoints_True:
  "scanAccessPoints v s scan_time uninit r_start r_fetch r_stop = (True, s0)
   \<Longrightarrow> is_initialized s0 \<and> access_point_count s0 = 0"
  by (auto simp: scanAccessPoints_def Let_def wlan_ioctl_get_scan_results_def issue_def
      delay_def split: if_splits)

lemma scanned_True:
  "scanAccessPoints vendor0 ready 4000 (\<lambda>k. 0) 0 (found home_net) 0 = (True, scanned)"
proof -
  have "fst (scanAccessPoints vendor0 ready 4000 (\<lambda>k. 0) 0 (found home_net) 0) = True"
    by (simp add: scanAccessPoints_def ready_initialized vendor0_def found_def Let_def)
  then show ?thesis
    by (simp add: scanned_def prod_eq_iff)
qed

text \<open>
  C3, as stated: after a successful scan that reports \<open>totalNetworks\<close> networks with
  a valid first record, and with every results-fetch succeeding, the first
  \<open>totalNetworks\<close> calls of \<open>getNextAccessPoint\<close> return true. This fails: the second
  guard tests the validity flag of the record that the last fetch has put into the
  buffer. Here the scan reports 2 networks and a valid first record, every fetch
  succeeds, but the record fetched by the first call is not flagged valid: the second
  call returns false.
\<close>

theorem C3_invalid_record_counterexample:
  "fst (scanAccessPoints vendor0 ready 4000 (\<lambda>k. 0) 0 (found home_net) 0) = True
   \<and> num_access_points scanned = 2
   \<and> is_valid (ap_scan_result scanned)
   \<and> map_option fst
       (getNextAccessPoint_calls vendor0 scanned empty_info
          [found blank_result, found blank_result, found blank_result])
       = Some [True, False, False]"
  using scanned_True
  by (simp add: scanned_simps getNextAccessPoint_def fill_home vendor0_simps reply_simps
      valid_simps wlan_ioctl_get_scan_results_def issue_def Let_def)

text \<open>
  C3, amended: after a successful \<open>scanAccessPoints\<close> that reports \<open>totalNetworks\<close>
  networks with a valid first record, if every results-fetch succeeds, every record
  fetched before the last of the \<open>totalNetworks\<close> calls is flagged valid, and the
  copies of the records returned fit the caller's struct, then each of the first
  \<open>totalNetworks\<close> calls returns true, the next call returns false (whatever the
  vendor library would answer) and the retrieved count is \<open>totalNetworks\<close>.
\<close>

theorem C3_retrieve_all:
  assumes "scanAccessPoints v s scan_time uninit r_start r_fetch r_stop = (True, s0)"
    and "is_valid (ap_scan_result s0)"
    and "length fetches = num_access_points s0"
    and "\<forall>f\<in>set fetches. sr_status f = CC3000_SUCCESS v"
    and "\<forall>r\<in>set (butlast (map sr_data fetches)). is_valid r"
    and "\<forall>r\<in>set (butlast (ap_scan_result s0 # map sr_data fetches)).
           fill_ap_info v r ap_info \<noteq> None"
  shows "\<exists>s' ap_info'.
      getNextAccessPoint_calls v s0 ap_info fetches
        = Some (replicate (num_access_points s0) True, s', ap_info')
      \<and> getNextAccessPoint v s' ap_info' extra = Some (False, s', ap_info')
      \<and> access_point_count s' = num_access_points s0"
proof -
  note s0 = scanAccessPoints_True [OF assms(1)]
  have c: "access_point_count s0 + length fetches = num_access_points s0"
    using s0 assms(3) by simp
  have r: "\<forall>r\<in>set (butlast (ap_scan_result s0 # map sr_data fetches)).
           is_valid r \<and> fill_ap_info v r ap_info \<noteq> None"
    using assms(2,5,6) by (cases fetches) auto
  from calls_all_true [OF conjunct1 [OF s0] c assms(4) r] obtain s' ap' where
    a: "getNextAccessPoint_calls v s0 ap_info fetches
          = Some (replicate (length fetches) True, s', ap')"
    and b: "is_initialized s'" "access_point_count s' = num_access_points s0"
      "num_access_points s' = num_access_points s0"
    by blast
  have "getNextAccessPoint v s' ap' extra = Some (False, s', ap')"
    using b by (simp add: getNextAccessPoint_def)
  then show ?thesis
    using a b assms(3) by simp
qed

theorem C3_retrieve_all_witness:
  "\<exists>s' ap_info'.
      getNextAccessPoint_calls vendor0 scanned empty_info [found home_net, found blank_result]
        = Some (replicate (num_access_points scanned) True, s', ap_info')
      \<and> getNextAccessPoint vendor0 s' ap_info' (found home_net) = Some (False, s', ap_info')
      \<and> access_point_count s' = num_access_points scanned"
proof -
  have v: "is_valid (ap_scan_result scanned)"
    by (simp add: scanned_simps home_net_def)
  have l: "length [found home_net, found blank_result] = num_access_points scanned"
    by (simp add: scanned_simps)
  have f: "\<forall>f\<in>set [found home_net, found blank_result]. sr_status f = CC3000_SUCCESS vendor0"
    by (simp add: found_def vendor0_def)
  have r: "\<forall>r\<in>set (butlast (map sr_data [found home_net, found blank_result])). is_valid r"
    by (simp add: found_def home_net_def)
  have d: "\<forall>r\<in>set (butlast (ap_scan_result scanned
                # map sr_data [found home_net, found blank_result])).
             fill_ap_info vendor0 r empty_info \<noteq> None"
    by (simp add: scanned_simps found_def fill_home)
  show ?thesis
    by (rule C3_retrieve_all [OF scanned_True v l f r d])
qed

section \<open>The scan session\<close>

lemma init_scan_session:
  "num_access_points (snd (init avr s)) = num_access_points s"
  "access_point_count (snd (init avr s)) = access_point_count s"
  "ap_scan_result (snd (init avr s)) = ap_scan_result s"
  by (simp_all add: init_def init_hardware_def issue_def delay_def Let_def)

lemma scanAccessPoints_count_le:
  "access_point_count s \<le> num_access_points s
   \<Longrightarrow> access_point_count (snd (scanAccessPoints v s scan_time uninit r_start r_fetch r_stop))
       \<le> num_access_points (snd (scanAccessPoints v s scan_time uninit r_start r_fetch r_stop))"
  by (simp add: scanAccessPoints_def Let_def wlan_ioctl_get_scan_results_def issue_def delay_def)

lemma getNextAccessPoint_count_le:
  "getNextAccessPoint v s ap f = Some (b, s', ap')
   \<Longrightarrow> access_point_count s \<le> num_access_points s
   \<Longrightarrow> access_point_count s' \<le> num_access_points s'"
  by (auto simp: getNextAccessPoint_def Let_def wlan_ioctl_get_scan_results_def issue_def
      split: if_splits option.splits)

lemma run_count_le:
  "run v s calls = Some s' \<Longrightarrow> access_point_count s \<le> num_access_points s
   \<Longrightarrow> access_point_count s' \<le> num_access_points s'"
proof (induction v s calls rule: run.induct)
  case (1 v s)
  then show ?case by simp
next
  case (2 v s avr cs)
  then show ?case by (simp add: init_scan_session)
next
  case (3 v s scan_time uninit r_start r_fetch r_stop cs)
  then show ?case by (simp add: scanAccessPoints_count_le)
next
  case (4 v s ap_info fetch cs)
  then show ?case
    by (auto split: option.splits dest: getNextAccessPoint_count_le)
qed

lemma no_record_getNextAccessPoint:
  "no_record s \<Longrightarrow> getNextAccessPoint v s ap f = Some (False, s, ap)"
  by (auto simp: no_record_def getNextAccessPoint_def)

lemma no_record_scanAccessPoints:
  "no_record s \<Longrightarrow> \<not> fetched_first v (Scan scan_time uninit r_start r_fetch r_stop)
   \<Longrightarrow> no_record (snd (scanAccessPoints v s scan_time uninit r_start r_fetch r_stop))"
  by (auto simp: no_record_def scanAccessPoints_def Let_def wlan_ioctl_get_scan_results_def
      issue_def delay_def)

lemma run_no_record:
  "run v s calls = Some s' \<Longrightarrow> no_record s \<Longrightarrow> \<forall>c\<in>set calls. \<not> fetched_first v c
   \<Longrightarrow> no_record s'"
proof (induction v s calls rule: run.induct)
  case (1 v s)
  then show ?case by simp
next
  case (2 v s avr cs)
  then show ?case by (simp add: no_record_def init_scan_session)
next
  case (3 v s scan_time uninit r_start r_fetch r_stop cs)
  then show ?case using no_record_scanAccessPoints by simp
next
  case (4 v s ap_info fetch cs)
  have g: "getNextAccessPoint v s ap_info fetch = Some (False, s, ap_info)"
    using "4.prems"(2) by (rule no_record_getNextAccessPoint)
  have r: "run v s cs = Some s'"
    using "4.prems"(1) g by simp
  have n: "\<forall>c\<in>set cs. \<not> fetched_first v c"
    using "4.prems"(3) by simp
  show ?case
    by (rule "4.IH" [OF g refl refl r "4.prems"(2) n])
qed

text \<open>
  C6, as stated: the retrieved count never exceeds the number of networks, and
  \<open>getNextAccessPoint\<close> returns false unless a scan has completed successfully with a
  valid result. The second part fails: \<open>scanAccessPoints\<close> sets the number of networks
  from the first results before it sends the command that stops the scan. Here that
  command is rejected, so the only scan ever made on the driver returns false, and the
  next \<open>getNextAccessPoint\<close> returns true.
\<close>

theorem C6_scan_failed_record_counterexample:
  "fst (scanAccessPoints vendor0 ready 4000 (\<lambda>k. 0) 0 (found home_net) 1) = False
   \<and> run vendor0 fresh [Init True, Scan 4000 (\<lambda>k. 0) 0 (found home_net) 1]
       = Some scan_not_stopped
   \<and> map_option fst (getNextAccessPoint vendor0 scan_not_stopped empty_info (found home_net))
       = Some True"
proof -
  have a: "fst (scanAccessPoints vendor0 ready 4000 (\<lambda>k. 0) 0 (found home_net) 1) = False"
    by (simp add: scanAccessPoints_def ready_initialized vendor0_def found_def Let_def)
  have b: "run vendor0 fresh [Init True, Scan 4000 (\<lambda>k. 0) 0 (found home_net) 1]
       = Some scan_not_stopped"
    by (simp add: scan_not_stopped_def ready_def)
  have s: "is_initialized scan_not_stopped" "ap_scan_result scan_not_stopped = home_net"
    "num_access_points scan_not_stopped = 2" "access_point_count scan_not_stopped = 0"
    by (simp_all add: scan_not_stopped_def scanAccessPoints_def ready_initialized vendor0_def
        issue_def delay_def wlan_ioctl_get_scan_results_def found_def home_net_def Let_def)
  have c: "map_option fst (getNextAccessPoint vendor0 scan_not_stopped empty_info (found home_net))
       = Some True"
    by (simp add: getNextAccessPoint_def s fill_home valid_simps reply_simps vendor0_simps
        Let_def)
  show ?thesis
    using a b c by simp
qed

text \<open>
  C6, amended: after construction and after every sequence of \<open>init\<close>,
  \<open>scanAccessPoints\<close> and \<open>getNextAccessPoint\<close> calls the retrieved count is at most
  the number of networks; and \<open>getNextAccessPoint\<close> returns false, leaving the state
  and the caller's struct alone, unless some \<open>scanAccessPoints\<close> call has started a
  scan and fetched first results with success that are flagged valid and report at
  least one network (whether or not that call went on to return true).
\<close>

theorem C6_scan_session:
  "run v (SFE_CC3000 raw int_pin en_pin cs_pin) calls = Some s
   \<Longrightarrow> access_point_count s \<le> num_access_points s
     \<and> ((\<forall>c\<in>set calls. \<not> fetched_first v c)
          \<longrightarrow> getNextAccessPoint v s ap_info fetch = Some (False, s, ap_info))"
proof -
  assume r: "run v (SFE_CC3000 raw int_pin en_pin cs_pin) calls = Some s"
  have a: "access_point_count (SFE_CC3000 raw int_pin en_pin cs_pin)
             \<le> num_access_points (SFE_CC3000 raw int_pin en_pin cs_pin)"
    by (simp add: SFE_CC3000_def)
  have b: "no_record (SFE_CC3000 raw int_pin en_pin cs_pin)"
    by (simp add: SFE_CC3000_def no_record_def)
  show ?thesis
    using run_count_le [OF r a] run_no_record [OF r b] no_record_getNextAccessPoint
    by blast
qed

theorem C6_scan_session_witness:
  "run vendor0 fresh [Init True, Scan 4000 (\<lambda>k. 0) 0 (failed home_net) 0]
     = Some scan_without_results
   \<and> access_point_count scan_without_results \<le> num_access_points scan_without_results
   \<and> getNextAccessPoint vendor0 scan_without_results empty_info (found home_net)
       = Some (False, scan_without_results, empty_info)"
proof -
  have r: "run vendor0 (SFE_CC3000 zero_memory 2 7 10)
             [Init True, Scan 4000 (\<lambda>k. 0) 0 (failed home_net) 0] = Some scan_without_results"
    by (simp add: scan_without_results_def ready_def fresh_def)
  have n: "\<forall>c\<in>set [Init True, Scan 4000 (\<lambda>k. 0) 0 (failed home_net) 0].
             \<not> fetched_first vendor0 c"
    by (simp add: failed_def vendor0_def)
  from C6_scan_session [OF r, of empty_info "found home_net"] n r
  show ?thesis by (simp add: fresh_def)
qed

section \<open>Byte order of the connection information\<close>

lemma reverse_loop_spec:
  assumes "max_i \<le> length src" and "max_i \<le> length dst"
  shows "\<exists>r. reverse_loop i max_i src dst = Some r \<and> length r = length dst
     \<and> (\<forall>j<length dst.
           r ! j = (if i \<le> j \<and> j < max_i then src ! (max_i - 1 - j) else dst ! j))"
  using assms
proof (induction i max_i src dst rule: reverse_loop.induct)
  case (1 i max_i src dst)
  show ?case
  proof (cases "i < max_i")
    case False
    then show ?thesis
      by (subst reverse_loop.simps) auto
  next
    case True
    let ?d = "dst[i := src ! (max_i - 1 - i)]"
    have st: "store dst i (src ! (max_i - 1 - i)) = Some ?d"
      using True "1.prems"(2) by (simp add: store_def)
    have "max_i \<le> length ?d"
      using "1.prems"(2) by simp
    from "1.IH" [OF True st "1.prems"(1) this] obtain r where
      r: "reverse_loop (i + 1) max_i src ?d = Some r" "length r = length ?d"
      and n: "\<forall>j<length ?d.
          r ! j = (if i + 1 \<le> j \<and> j < max_i then src ! (max_i - 1 - j) else ?d ! j)"
      by blast
    have "reverse_loop i max_i src dst = Some r"
      by (subst reverse_loop.simps) (use True st r in simp)
    moreover have "length r = length dst"
      using r by simp
    moreover have "\<forall>j<length dst.
        r ! j = (if i \<le> j \<and> j < max_i then src ! (max_i - 1 - j) else dst ! j)"
    proof (intro allI impI)
      fix j assume j: "j < length dst"
      show "r ! j = (if i \<le> j \<and> j < max_i then src ! (max_i - 1 - j) else dst ! j)"
      proof (cases "j = i")
        case True
        then show ?thesis using n j \<open>i < max_i\<close> by simp
      next
        case False
        then show ?thesis using n j by auto
      qed
    qed
    ultimately show ?thesis by blast
  qed
qed

lemma reverse_field_rev:
  assumes "length src < 256" and "length dst = length src"
  shows "reverse_field src dst = Some (rev src)"
proof -
  have m: "length src mod 256 = length src"
    using assms(1) by simp
  from reverse_loop_spec [of "length src" src dst 0] assms(2) obtain r where
    r: "reverse_loop 0 (length src) src dst = Some r" "length r = length dst"
    and n: "\<forall>j<length dst.
        r ! j = (if 0 \<le> j \<and> j < length src then src ! (length src - 1 - j) else dst ! j)"
    by auto
  have "r = rev src"
  proof (rule nth_equalityI)
    show "length r = length (rev src)"
      using r assms(2) by simp
  next
    fix j assume "j < length r"
    then have j: "j < length src"
      using r assms(2) by simp
    then have "r ! j = src ! (length src - 1 - j)"
      using n assms(2) by simp
    also have "\<dots> = rev src ! j"
      using j by (simp add: rev_nth)
    finally show "r ! j = rev src ! j" .
  qed
  then have "reverse_loop 0 (length src) src dst = Some (rev src)"
    using r(1) by (simp only:)
  then show ?thesis
    by (simp only: reverse_field_def m)
qed

text \<open>
  What \<open>getConnectionInfo\<close> delivers when the arrays have the sizes of the vendor's
  struct (4 byte addresses, a 6 byte MAC address, a 32 byte name): every address field
  is the reversed field of \<open>connection_info\<close>, the name is copied as it is.
\<close>

lemma getConnectionInfo_reverses:
  assumes "is_initialized s" and "getConnectionStatus s" and "getDHCPStatus s"
    and "length (aucIP (connection_info s)) = 4" and "length (ip_address info) = 4"
    and "length (aucSubnetMask (connection_info s)) = 4" and "length (subnet_mask info) = 4"
    and "length (aucDefaultGateway (connection_info s)) = 4"
    and "length (default_gateway info) = 4"
    and "length (aucDHCPServer (connection_info s)) = 4" and "length (dhcp_server info) = 4"
    and "length (aucDNSServer (connection_info s)) = 4" and "length (dns_server info) = 4"
    and "length (uaMacAddr (connection_info s)) = 6" and "length (mac_address info) = 6"
    and "length (uaSSID (connection_info s)) = 32" and "length (ci_ssid info) = 32"
  shows "getConnectionInfo s info =
     Some (True, info\<lparr>ip_address := rev (aucIP (connection_info s)),
                      subnet_mask := rev (aucSubnetMask (connection_info s)),
                      default_gateway := rev (aucDefaultGateway (connection_info s)),
                      dhcp_server := rev (aucDHCPServer (connection_info s)),
                      dns_server := rev (aucDNSServer (connection_info s)),
                      mac_address := rev (uaMacAddr (connection_info s)),
                      ci_ssid := uaSSID (connection_info s)\<rparr>)"
  using assms by (simp add: getConnectionInfo_def reverse_field_rev memcpy_def)

text \<open>
  C7: the reversal that \<open>getConnectionInfo\<close> applies to a field is its own inverse.
  For every byte array \<open>xs\<close> whose size fits a \<open>uint8_t\<close> (the 4 byte addresses and
  the 6 byte MAC address among them) and destinations of the same size, reversing \<open>xs\<close>
  gives \<open>rev xs\<close> and reversing that gives \<open>xs\<close> again.
\<close>

theorem C7_reversal_self_inverse:
  assumes "length xs < 256" and "length d1 = length xs" and "length d2 = length xs"
  shows "reverse_field xs d1 = Some (rev xs) \<and> reverse_field (rev xs) d2 = Some xs"
  using reverse_field_rev [OF assms(1,2)] reverse_field_rev [of "rev xs" d2] assms
  by simp

theorem C7_reversal_self_inverse_witness:
  "reverse_field [10, 1, 168, 192] [0, 0, 0, 0] = Some [192, 168, 1, 10]
   \<and> reverse_field [192, 168, 1, 10] [0, 0, 0, 0] = Some [10, 1, 168, 192]"
  using C7_reversal_self_inverse [of "[10, 1, 168, 192]" "[0, 0, 0, 0]" "[0, 0, 0, 0]"]
  by simp

section \<open>Byte order of a resolved address\<close>

lemma low_byte: "(ucast (w AND 0xFF) :: u8) = ucast (w :: u32)"
proof -
  have "w AND 0xFF = take_bit 8 w"
    by (simp add: take_bit_eq_mask mask_eq_exp_minus_1)
  moreover have "(ucast (take_bit 8 w) :: u8) = ucast w"
    by (rule bit_word_eqI) (auto simp: bit_simps)
  ultimately show ?thesis
    by (simp only:)
qed

lemma four_bytes:
  "(w :: u32) = push_bit 24 (ucast (ucast (drop_bit 24 w) :: u8))
      OR push_bit 16 (ucast (ucast (drop_bit 16 w) :: u8))
      OR push_bit 8 (ucast (ucast (drop_bit 8 w) :: u8))
      OR ucast (ucast w :: u8)"
proof (rule bit_word_eqI)
  fix n assume n: "n < LENGTH(32)"
  consider "n < 8" | "8 \<le> n" "n < 16" | "16 \<le> n" "n < 24" | "24 \<le> n" "n < 32"
    using n by fastforce
  then show "bit w n = bit (push_bit 24 (ucast (ucast (drop_bit 24 w) :: u8))
      OR push_bit 16 (ucast (ucast (drop_bit 16 w) :: u8))
      OR push_bit 8 (ucast (ucast (drop_bit 8 w) :: u8))
      OR (ucast (ucast w :: u8) :: u32)) n"
  proof cases
    case 1
    then show ?thesis by (auto simp: bit_simps)
  next
    case 2
    then show ?thesis by (auto simp: bit_simps)
  next
    case 3
    then show ?thesis by (auto simp: bit_simps)
  next
    case 4
    then show ?thesis by (auto simp: bit_simps)
  qed
qed

lemma online_simps:
  "is_initialized online" "getConnectionStatus online" "getDHCPStatus online"
  by (simp_all add: online_def ready_initialized getConnectionStatus_def getDHCPStatus_def)

text \<open>
  C8: when \<open>dnsLookup\<close> returns true for the 32-bit address \<open>a\<close> that the name
  resolution has delivered, the output holds \<open>a\<close> in big-endian order: byte 0 is the
  most significant byte of \<open>a\<close> (bits 24 to 31), byte 3 the least significant one, and
  the four bytes put together from byte 0 down give \<open>a\<close> back.
\<close>

theorem C8_dnsLookup_big_endian:
  assumes "dnsLookup s hostname ip_addr r_ret a = Some (True, s', ip_addr')"
  shows "address ip_addr' ! 0 = ucast (drop_bit 24 a)
     \<and> address ip_addr' ! 1 = ucast (drop_bit 16 a)
     \<and> address ip_addr' ! 2 = ucast (drop_bit 8 a)
     \<and> address ip_addr' ! 3 = ucast a
     \<and> a = push_bit 24 (ucast (address ip_addr' ! 0))
          OR push_bit 16 (ucast (address ip_addr' ! 1))
          OR push_bit 8 (ucast (address ip_addr' ! 2))
          OR ucast (address ip_addr' ! 3)"
proof -
  from assms obtain a3 a2 a1 a0 where
    s3: "store (address ip_addr) 3 (ucast (a AND 0xFF)) = Some a3"
    and s2: "store a3 2 (ucast (drop_bit 8 a AND 0xFF)) = Some a2"
    and s1: "store a2 1 (ucast (drop_bit 16 a AND 0xFF)) = Some a1"
    and s0: "store a1 0 (ucast (drop_bit 24 a AND 0xFF)) = Some a0"
    and ip: "ip_addr' = ip_addr\<lparr>address := a0\<rparr>"
    by (auto simp: dnsLookup_def Let_def split: if_splits option.splits)
  note t3 = store_Some [OF s3] and t2 = store_Some [OF s2] and t1 = store_Some [OF s1]
    and t0 = store_Some [OF s0]
  have b: "address ip_addr' ! 0 = ucast (drop_bit 24 a)"
    "address ip_addr' ! 1 = ucast (drop_bit 16 a)"
    "address ip_addr' ! 2 = ucast (drop_bit 8 a)"
    "address ip_addr' ! 3 = ucast a"
    using t3 t2 t1 t0 by (simp_all add: ip low_byte)
  show ?thesis
    unfolding b using four_bytes [of a] by simp
qed

theorem C8_dnsLookup_big_endian_witness:
  "dnsLookup online ''host'' \<lparr>address = [0, 0, 0, 0]\<rparr> 1 0xC0A8010A
     = Some (True, issue (GetHostByName ''host'' (length ''host'')) online, \<lparr>address = [0xC0, 0xA8, 0x01, 0x0A]\<rparr>)
   \<and> address \<lparr>address = [0xC0, 0xA8, 0x01, 0x0A]\<rparr> ! 0 = ucast (drop_bit 24 (0xC0A8010A :: u32))
   \<and> address \<lparr>address = [0xC0, 0xA8, 0x01, 0x0A]\<rparr> ! 3 = ucast (0xC0A8010A :: u32)"
proof -
  have b: "(ucast (0xC0A8010A :: u32) :: u8) = 0x0A"
    "(ucast (drop_bit 8 (0xC0A8010A :: u32)) :: u8) = 0x01"
    "(ucast (drop_bit 16 (0xC0A8010A :: u32)) :: u8) = 0xA8"
    "(ucast (drop_bit 24 (0xC0A8010A :: u32)) :: u8) = 0xC0"
    by simp_all
  have h: "dnsLookup online ''host'' \<lparr>address = [0, 0, 0, 0]\<rparr> 1 0xC0A8010A
     = Some (True, issue (GetHostByName ''host'' (length ''host'')) online,
             \<lparr>address = [0xC0, 0xA8, 0x01, 0x0A]\<rparr>)"
    by (simp add: dnsLookup_def online_simps store_def low_byte b Let_def)
  note c = C8_dnsLookup_big_endian [OF h]
  show ?thesis
    by (rule conjI [OF h conjI [OF conjunct1 [OF c]
          conjunct1 [OF conjunct2 [OF conjunct2 [OF conjunct2 [OF c]]]]]])
qed

end
